theory Spec2Isabelle
  imports Complex_Main "HOL-Library.Sublist"
begin

section \<open>Python values used by the grader\<close>

text \<open>
  A Python \<open>str\<close> is modelled as a \<open>string\<close>; each \<open>char\<close> stands for one code point
  below 256, so \<open>length\<close> is Python's \<open>len\<close> on such text. A raised exception is a value
  carrying its class name and \<open>str(e)\<close>. A call either returns, raises, or ends the
  process with an exit status.
\<close>

datatype exn = Exn (exn_class: string) (exn_msg: string)

datatype 'a result = Returned 'a | Raised exn | Exited nat

definition nl :: char where
  "nl = CHR 0x0A"

definition quote :: char where
  "quote = CHR 0x27"

text \<open>
  Lines printed to the console, one constructor per \<open>print\<close> call of the source; the
  arguments are the values interpolated into the format string.
\<close>

datatype msg =
    RequirementNotFound string
  | ParseError string
  | RawResponse string string
  | ErrorAnalyzing string string
  | ProcessingSubmission string
  | Analyzing string
  | ScoreLine rat
  | FeedbackLine string
  | ErrorProcessing string string

definition DEBUG_MODE :: bool where
  "DEBUG_MODE = True"

section \<open>Requirement loader\<close>

text \<open>\<open>"\n".join(full_text)\<close>\<close>

fun join_nl :: "string list \<Rightarrow> string" where
  "join_nl [] = []"
| "join_nl [x] = x"
| "join_nl (x # y # ys) = x @ nl # join_nl (y # ys)"

text \<open>
  The \<open>for page in doc\<close> loop of \<open>extract_requirements\<close>: \<open>full_text\<close> is the list built
  so far, the second argument the page texts still to come.
\<close>

fun accumulate_pages :: "string list \<Rightarrow> string list \<Rightarrow> string list" where
  "accumulate_pages full_text [] = full_text"
| "accumulate_pages full_text (page_text # doc) =
     (if length (join_nl full_text) + length page_text < 2500
      then accumulate_pages (full_text @ [page_text]) doc
      else accumulate_pages full_text doc)"

text \<open>
  \<open>extract_requirements\<close>; \<open>fitz_open\<close> is the document library: it raises or yields the
  page texts in order. Only \<open>FileNotFoundError\<close> is handled (message, then \<open>exit(1)\<close>).
\<close>

definition extract_requirements ::
  "(string \<Rightarrow> exn + string list) \<Rightarrow> string \<Rightarrow> msg list \<times> string result" where
  "extract_requirements fitz_open pdf_path =
     (case fitz_open pdf_path of
        Inr doc \<Rightarrow> ([], Returned (join_nl (accumulate_pages [] doc)))
      | Inl e \<Rightarrow>
          if exn_class e = ''FileNotFoundError''
          then ([RequirementNotFound pdf_path], Exited 1)
          else ([], Raised e))"

text \<open>
  The loader as the specification words it, for comparison with the code: a page is
  appended while the length accumulated so far is under the budget (so the page that
  crosses the boundary goes in whole), and accumulation stops once the budget is reached.
\<close>

fun spec_accumulate_pages :: "string list \<Rightarrow> string list \<Rightarrow> string list" where
  "spec_accumulate_pages full_text [] = full_text"
| "spec_accumulate_pages full_text (page_text # doc) =
     (if length (join_nl full_text) < 2500
      then spec_accumulate_pages (full_text @ [page_text]) doc
      else full_text)"

section \<open>Response parser\<close>

subsection \<open>The two regular expressions\<close>

definition is_digit :: "char \<Rightarrow> bool" where
  "is_digit c \<longleftrightarrow> c \<in> set ''0123456789''"

text \<open>The character class \<open>[0-9.]\<close>.\<close>

definition is_score_char :: "char \<Rightarrow> bool" where
  "is_score_char c \<longleftrightarrow> is_digit c \<or> c = CHR ''.''"

text \<open>The characters the lazy \<open>.*?\<close> passes before it meets \<open>|\<close>: \<open>.\<close> excludes the newline.\<close>

definition is_feedback_char :: "char \<Rightarrow> bool" where
  "is_feedback_char c \<longleftrightarrow> c \<noteq> CHR ''|'' \<and> c \<noteq> nl"

text \<open>Matching a literal at the start of the text; the rest of the text on success.\<close>

fun strip_prefix :: "string \<Rightarrow> string \<Rightarrow> string option" where
  "strip_prefix [] t = Some t"
| "strip_prefix (p # ps) [] = None"
| "strip_prefix (p # ps) (c # cs) = (if p = c then strip_prefix ps cs else None)"

text \<open>
  \<open>Score\|([0-9.]+)\|?\<close> anchored at the start of the text: group 1 is the longest run of
  \<open>[0-9.]\<close> after the literal (greedy), and it must not be empty; the optional bar never
  makes the match fail.
\<close>

definition match_score_at :: "string \<Rightarrow> string option" where
  "match_score_at t =
     (case strip_prefix ''Score|'' t of
        None \<Rightarrow> None
      | Some r \<Rightarrow>
          (let g = takeWhile is_score_char r in if g = [] then None else Some g))"

text \<open>
  \<open>Feedback\|(.*?)(\||$)\<close> anchored at the start of the text: group 1 is the shortest run
  of non-newline characters that is followed by a bar or by \<open>$\<close>, which (without
  \<open>re.MULTILINE\<close>) holds at the end of the text and just before a newline that ends it.
\<close>

definition match_feedback_at :: "string \<Rightarrow> string option" where
  "match_feedback_at t =
     (case strip_prefix ''Feedback|'' t of
        None \<Rightarrow> None
      | Some r \<Rightarrow>
          (let g = takeWhile is_feedback_char r in
           case dropWhile is_feedback_char r of
             [] \<Rightarrow> Some g
           | c # cs \<Rightarrow> if c = CHR ''|'' \<or> cs = [] then Some g else None))"

text \<open>\<open>re.search\<close>: the match at the leftmost position where the anchored pattern matches.\<close>

fun re_search :: "(string \<Rightarrow> 'a option) \<Rightarrow> string \<Rightarrow> 'a option" where
  "re_search m [] = m []"
| "re_search m (c # cs) =
     (case m (c # cs) of Some g \<Rightarrow> Some g | None \<Rightarrow> re_search m cs)"

definition score_match :: "string \<Rightarrow> string option" where
  "score_match text = re_search match_score_at text"

definition feedback_match :: "string \<Rightarrow> string option" where
  "feedback_match text = re_search match_feedback_at text"

subsection \<open>\<open>float\<close> and \<open>strip\<close>\<close>

text \<open>
  \<open>float(s)\<close> on the strings group 1 of the score pattern can hold (digits and points):
  digits with at most one point and at least one digit denote a number, anything else
  raises \<open>ValueError\<close>. The score is kept as the exact rational the numeral denotes;
  Python rounds it to the nearest double, which is monotone and leaves 0, 5 and 10
  unchanged, so comparisons with these bounds are the same on both.
\<close>

definition digit_val :: "char \<Rightarrow> nat" where
  "digit_val c = of_char c - 48"

definition decimal :: "string \<Rightarrow> nat" where
  "decimal ds = foldl (\<lambda>a d. 10 * a + digit_val d) 0 ds"

definition float_error :: "string \<Rightarrow> exn" where
  "float_error s =
     Exn ''ValueError'' (''could not convert string to float: '' @ quote # s @ [quote])"

definition py_float :: "string \<Rightarrow> exn + rat" where
  "py_float s =
     (let ip = takeWhile is_digit s in
      case dropWhile is_digit s of
        [] \<Rightarrow> if ip = [] then Inl (float_error s) else Inr (of_nat (decimal ip))
      | c # fp \<Rightarrow>
          if c = CHR ''.'' \<and> list_all is_digit fp \<and> (ip \<noteq> [] \<or> fp \<noteq> [])
          then Inr (of_nat (decimal ip) + of_nat (decimal fp) / 10 ^ length fp)
          else Inl (float_error s))"

text \<open>\<open>str.isspace\<close> on code points below 256, and \<open>str.strip()\<close>.\<close>

definition is_space :: "char \<Rightarrow> bool" where
  "is_space c \<longleftrightarrow>
     (of_char c :: nat) \<in> {9, 10, 11, 12, 13, 28, 29, 30, 31, 32, 133, 160}"

definition strip :: "string \<Rightarrow> string" where
  "strip s = rev (dropWhile is_space (rev (dropWhile is_space s)))"

subsection \<open>\<open>parse_llm_response\<close>\<close>

text \<open>The body of the \<open>try\<close>: the only statement that can raise is the \<open>float\<close> call.\<close>

definition parse_body :: "string \<Rightarrow> exn + rat \<times> string" where
  "parse_body text =
     (case (case score_match text of Some g \<Rightarrow> py_float g | None \<Rightarrow> Inr 5) of
        Inl e \<Rightarrow> Inl e
      | Inr score \<Rightarrow>
          (let feedback =
                 (case feedback_match text of
                    Some g \<Rightarrow> strip g
                  | None \<Rightarrow> ''No feedback parsed'')
           in Inr (max 0 (min 10 score), feedback)))"

definition parse_llm_response :: "string \<Rightarrow> msg list \<times> rat \<times> string" where
  "parse_llm_response text =
     (case parse_body text of
        Inr r \<Rightarrow> ([], r)
      | Inl e \<Rightarrow>
          (if DEBUG_MODE then [ParseError (exn_msg e)] else [],
           5, ''Could not parse analysis results''))"

section \<open>Inference client\<close>

text \<open>The f-string of \<open>analyze_submission\<close>; \<open>content[:2500]\<close> is \<open>take 2500 content\<close>.\<close>

definition prompt :: "string \<Rightarrow> string \<Rightarrow> string \<Rightarrow> string" where
  "prompt file_path content requirements =
     ''EVALUATION TASK:'' @ nl #
     ''1. Review this code/config file against these requirements:'' @ nl #
     requirements @ nl # nl #
     ''2. File: '' @ file_path @ nl #
     ''3. Content (truncated if long):'' @ nl #
     take 2500 content @ nl # nl #
     ''FORMAT REQUIREMENTS:'' @ nl #
     ''- Respond ONLY with these 2 lines:'' @ nl #
     ''Score|<0-10 with decimal>|'' @ nl #
     ''Feedback|<concise issues>|'' @ nl #
     ''- No other text or explanations''"

text \<open>
  \<open>analyze_submission\<close>. \<open>generate\<close> is the inference service \<open>ollama.generate\<close> with
  its fixed model, format and options: given the prompt it raises or returns a response
  object, a dictionary. Reading \<open>response['response']\<close> raises \<open>KeyError\<close> when the key is
  absent. Every exception of the \<open>try\<close> block is caught by \<open>except Exception\<close>.
\<close>

definition analyze_submission ::
  "(string \<Rightarrow> exn + (string \<rightharpoonup> string)) \<Rightarrow> string \<Rightarrow> string \<Rightarrow> string
     \<Rightarrow> msg list \<times> rat \<times> string" where
  "analyze_submission generate file_path content requirements =
     (case generate (prompt file_path content requirements) of
        Inl e \<Rightarrow> ([ErrorAnalyzing file_path (exn_msg e)], 0, ''Analysis failed'')
      | Inr response \<Rightarrow>
          (case response ''response'' of
             None \<Rightarrow>
               ([ErrorAnalyzing file_path (quote # ''response'' @ [quote])],
                0, ''Analysis failed'')
           | Some text \<Rightarrow>
               (case parse_llm_response text of
                  (out, r) \<Rightarrow>
                    ((if DEBUG_MODE then [RawResponse file_path text] else []) @ out, r))))"

section \<open>Processing the submissions\<close>

text \<open>
  What the file system and the archive library answer. An \<open>entry\<close> is one path yielded by
  \<open>extract_dir.rglob('*')\<close> with the values the loop reads from it. An \<open>archive\<close> is one
  path yielded by the glob over the submissions directory: its \<open>stem\<close>, whether opening it
  raises, whether \<open>extractall\<close> raises or else what \<open>rglob\<close> then enumerates, and whether
  the tree is gone after \<open>shutil.rmtree(extract_dir, ignore_errors=True)\<close>, which never
  raises.
\<close>

record entry =
  entry_path :: string
  rel_path :: string
  is_file :: bool
  file_suffix :: string
  read_text :: "exn + string"

record archive =
  stem :: string
  open_zip :: "exn option"
  extractall :: "exn + entry list"
  rmtree_removes :: bool

text \<open>
  A grade row keeps the score and the running total as numbers; the CSV cells are their
  renderings \<open>f"{score:.1f}/10"\<close> and \<open>f"{total_score:.1f}/40"\<close>.
\<close>

record row =
  row_id :: string
  row_file :: string
  row_score :: rat
  row_feedback :: string
  row_total :: rat

record world =
  console :: "msg list"
  csv_header :: "string list"
  csv_rows :: "row list"
  dirs :: "string set"

definition say :: "msg list \<Rightarrow> world \<Rightarrow> world" where
  "say ms w = w\<lparr>console := console w @ ms\<rparr>"

text \<open>\<open>str.split(sep)\<close> for a one-character separator; the result is never empty.\<close>

fun py_split :: "char \<Rightarrow> string \<Rightarrow> string list" where
  "py_split sep [] = [[]]"
| "py_split sep (c # cs) =
     (if c = sep then [] # py_split sep cs
      else (case py_split sep cs of [] \<Rightarrow> [[c]] | h # t \<Rightarrow> (c # h) # t))"

text \<open>\<open>zip_path.stem.split("-")[0]\<close>, applied to the stem.\<close>

definition asurite_id :: "string \<Rightarrow> string" where
  "asurite_id zip_stem = (case py_split (CHR ''-'') zip_stem of [] \<Rightarrow> [] | h # t \<Rightarrow> h)"

definition eligible :: "entry \<Rightarrow> bool" where
  "eligible file \<longleftrightarrow>
     is_file file \<and> file_suffix file \<in> {''.py'', ''.yaml'', ''.yml''}"

text \<open>
  One iteration of the loop over the extracted entries, on the running total and the
  world. \<open>read_text\<close> is the first statement of the \<open>try\<close>, so when it raises nothing else
  of the body has run; \<open>analyze_submission\<close> does not raise, and writing and flushing the
  row are taken to succeed.
\<close>

definition process_file ::
  "(string \<Rightarrow> exn + (string \<rightharpoonup> string)) \<Rightarrow> string \<Rightarrow> string \<Rightarrow> entry
     \<Rightarrow> rat \<times> world \<Rightarrow> rat \<times> world" where
  "process_file generate requirements sid file st =
     (case st of (total_score, w) \<Rightarrow>
        if eligible file then
          (case read_text file of
             Inl e \<Rightarrow> (total_score, say [ErrorProcessing (entry_path file) (exn_msg e)] w)
           | Inr content \<Rightarrow>
               (case analyze_submission generate (rel_path file) content requirements of
                  (out, score, feedback) \<Rightarrow>
                    (total_score + score,
                     (say ([Analyzing (rel_path file)] @ out @
                           [ScoreLine score, FeedbackLine feedback]) w)
                       \<lparr>csv_rows := csv_rows w @
                          [\<lparr>row_id = sid, row_file = rel_path file, row_score = score,
                            row_feedback = feedback,
                            row_total = total_score + score\<rparr>]\<rparr>)))
        else (total_score, w))"

fun process_files ::
  "(string \<Rightarrow> exn + (string \<rightharpoonup> string)) \<Rightarrow> string \<Rightarrow> string \<Rightarrow> entry list
     \<Rightarrow> rat \<times> world \<Rightarrow> rat \<times> world" where
  "process_files generate requirements sid [] st = st"
| "process_files generate requirements sid (file # files) st =
     process_files generate requirements sid files
       (process_file generate requirements sid file st)"

definition rmtree :: "string \<Rightarrow> bool \<Rightarrow> world \<Rightarrow> world" where
  "rmtree d removes w = (if removes then w\<lparr>dirs := dirs w - {d}\<rparr> else w)"

text \<open>
  The body of the loop over the archives. Opening and extracting are outside every
  \<open>try\<close>: an exception there leaves the function. The directory is on disk once
  \<open>rglob\<close> finds something under it; what a failed extraction leaves behind is not
  tracked.
\<close>

definition process_archive ::
  "(string \<Rightarrow> exn + (string \<rightharpoonup> string)) \<Rightarrow> string \<Rightarrow> archive \<Rightarrow> world
     \<Rightarrow> unit result \<times> world" where
  "process_archive generate requirements a w =
     (let sid = asurite_id (stem a);
          w1 = say [ProcessingSubmission sid] w
      in case open_zip a of
           Some e \<Rightarrow> (Raised e, w1)
         | None \<Rightarrow>
             (let extract_dir = ''temp/'' @ sid
              in case extractall a of
                   Inl e \<Rightarrow> (Raised e, w1)
                 | Inr files \<Rightarrow>
                     (let w2 = (if files = [] then w1
                                else w1\<lparr>dirs := insert extract_dir (dirs w1)\<rparr>)
                      in case process_files generate requirements sid files (0, w2) of
                           (total_score, w3) \<Rightarrow>
                             (Returned (), rmtree extract_dir (rmtree_removes a) w3))))"

fun process_archives ::
  "(string \<Rightarrow> exn + (string \<rightharpoonup> string)) \<Rightarrow> string \<Rightarrow> archive list \<Rightarrow> world
     \<Rightarrow> unit result \<times> world" where
  "process_archives generate requirements [] w = (Returned (), w)"
| "process_archives generate requirements (a # as) w =
     (case process_archive generate requirements a w of
        (Returned u, w') \<Rightarrow> process_archives generate requirements as w'
      | (Raised e, w') \<Rightarrow> (Raised e, w')
      | (Exited n, w') \<Rightarrow> (Exited n, w'))"

text \<open>
  \<open>process_submissions\<close>: \<open>pdf_path\<close> is the resolved path of the rubric, \<open>archives\<close>
  the glob over the submissions directory in its order. Opening the report truncates it
  and writes the header.
\<close>

definition process_submissions ::
  "(string \<Rightarrow> exn + string list) \<Rightarrow> (string \<Rightarrow> exn + (string \<rightharpoonup> string)) \<Rightarrow> string
     \<Rightarrow> archive list \<Rightarrow> world \<Rightarrow> unit result \<times> world" where
  "process_submissions fitz_open generate pdf_path archives w =
     (case extract_requirements fitz_open pdf_path of
        (out, Returned requirements) \<Rightarrow>
          process_archives generate requirements archives
            ((say out w)\<lparr>csv_header := [''ASURITE'', ''File'', ''Score'', ''Feedback'', ''Total''],
                         csv_rows := []\<rparr>)
      | (out, Raised e) \<Rightarrow> (Raised e, say out w)
      | (out, Exited n) \<Rightarrow> (Exited n, say out w))"

section \<open>Example inputs\<close>

text \<open>
  A submission \<open>abc123-final.zip\<close> holding \<open>main.py\<close> and \<open>config.yaml\<close>, an archive
  whose extraction fails, one whose extracted tree cannot be deleted, one holding a file
  that cannot be read, and three behaviours of the inference service.
\<close>

definition example_world :: world where
  "example_world = \<lparr>console = [], csv_header = [], csv_rows = [], dirs = {}\<rparr>"

definition main_py :: entry where
  "main_py = \<lparr>entry_path = ''temp/abc123/main.py'', rel_path = ''main.py'', is_file = True,
     file_suffix = ''.py'', read_text = Inr ''print(1)''\<rparr>"

definition config_yaml :: entry where
  "config_yaml = \<lparr>entry_path = ''temp/abc123/config.yaml'', rel_path = ''config.yaml'',
     is_file = True, file_suffix = ''.yaml'', read_text = Inr ''a: 1''\<rparr>"

definition abc123_zip :: archive where
  "abc123_zip = \<lparr>stem = ''abc123-final'', open_zip = None,
     extractall = Inr [main_py, config_yaml], rmtree_removes = True\<rparr>"

definition broken_zip :: archive where
  "broken_zip = \<lparr>stem = ''broken'', open_zip = None,
     extractall = Inl (Exn ''OSError'' ''No space left on device''), rmtree_removes = True\<rparr>"

definition locked_zip :: archive where
  "locked_zip = abc123_zip\<lparr>rmtree_removes := False\<rparr>"

definition service_down :: "string \<Rightarrow> exn + (string \<rightharpoonup> string)" where
  "service_down p = Inl (Exn ''ConnectionError'' ''connection refused'')"

definition service_no_text :: "string \<Rightarrow> exn + (string \<rightharpoonup> string)" where
  "service_no_text p = Inr Map.empty"

definition service_ok :: "string \<Rightarrow> exn + (string \<rightharpoonup> string)" where
  "service_ok p = Inr [''response'' \<mapsto> ''Score|7.5|'' @ [nl] @ ''Feedback|fine|'']"

definition unreadable_py :: entry where
  "unreadable_py = \<lparr>entry_path = ''temp/mixed/secret.py'', rel_path = ''secret.py'',
     is_file = True, file_suffix = ''.py'',
     read_text = Inl (Exn ''PermissionError'' ''Permission denied'')\<rparr>"

definition mixed_zip :: archive where
  "mixed_zip = \<lparr>stem = ''mixed-v2'', open_zip = None,
     extractall = Inr [unreadable_py, main_py], rmtree_removes = True\<rparr>"

section \<open>Evaluation of the definitions on concrete inputs\<close>

lemmas eval_parse = parse_llm_response_def parse_body_def score_match_def feedback_match_def
  match_score_at_def match_feedback_at_def py_float_def is_score_char_def is_digit_def
  decimal_def digit_val_def is_feedback_char_def nl_def strip_def is_space_def
  float_error_def DEBUG_MODE_def quote_def

lemmas eval_examples = example_world_def main_py_def config_yaml_def abc123_zip_def
  service_down_def service_ok_def

lemmas eval_process = process_archive_def process_file_def analyze_submission_def
  eligible_def say_def rmtree_def asurite_id_def Let_def

section \<open>The score is clamped\<close>

lemma parse_body_bounds: "parse_body reply = Inr (s, f) \<Longrightarrow> 0 \<le> s \<and> s \<le> 10"
  by (auto simp: parse_body_def split: sum.splits option.splits)

lemma parse_llm_response_bounds:
  "parse_llm_response reply = (out, s, f) \<Longrightarrow> 0 \<le> s \<and> s \<le> 10"
  using parse_body_bounds [of reply]
  by (auto simp: parse_llm_response_def split: sum.splits)

lemma parse_llm_response_clamps:
  "score_match reply = Some g \<Longrightarrow> py_float g = Inr v \<Longrightarrow>
     fst (snd (parse_llm_response reply)) = max 0 (min 10 v)"
  by (simp add: parse_llm_response_def parse_body_def)

text \<open>
  C3: for every raw reply, the score the response parser returns lies in the inclusive
  range from 0 to 10; whenever the score pattern captures a numeral, the score is the
  numeral's value clamped into that range.
\<close>

theorem parse_llm_response_score_range:
  "0 \<le> fst (snd (parse_llm_response reply)) \<and> fst (snd (parse_llm_response reply)) \<le> 10 \<and>
   (\<forall>g v. score_match reply = Some g \<longrightarrow> py_float g = Inr v \<longrightarrow>
      fst (snd (parse_llm_response reply)) = max 0 (min 10 v))"
  using parse_llm_response_bounds [of reply] parse_llm_response_clamps [of reply]
  by (cases "parse_llm_response reply") auto

theorem parse_llm_response_score_range_witness:
  "score_match ''Score|15.0|'' = Some ''15.0'' \<and> py_float ''15.0'' = Inr 15 \<and>
   fst (snd (parse_llm_response ''Score|15.0|'')) = 10 \<and>
   0 \<le> fst (snd (parse_llm_response ''Score|-2.5|'')) \<and>
   fst (snd (parse_llm_response ''Score|-2.5|'')) \<le> 10"
proof -
  have m: "score_match ''Score|15.0|'' = Some ''15.0''"
    by (simp add: eval_parse)
  have f: "py_float ''15.0'' = Inr 15"
    by (simp add: eval_parse)
  from parse_llm_response_score_range [of "''Score|15.0|''"] m f
  have "fst (snd (parse_llm_response ''Score|15.0|'')) = 10" by simp
  with m f parse_llm_response_score_range [of "''Score|-2.5|''"] show ?thesis by simp
qed

section \<open>The submission identifier\<close>

lemma py_split_first:
  "\<exists>t. py_split sep s = takeWhile (\<lambda>c. c \<noteq> sep) s # t"
  by (induction s) auto

lemma asurite_id_takeWhile: "asurite_id s = takeWhile (\<lambda>c. c \<noteq> CHR ''-'') s"
  using py_split_first [of "CHR ''-''" s] by (auto simp: asurite_id_def)

text \<open>
  C8: the submission identifier is the part of the archive's stem before the first
  occurrence of the separator \<open>-\<close>, and the whole stem when the separator does not occur.
\<close>

theorem asurite_id_before_first_dash:
  "(CHR ''-'' \<notin> set a \<longrightarrow> asurite_id (a @ CHR ''-'' # b) = a) \<and>
   (CHR ''-'' \<notin> set s \<longrightarrow> asurite_id s = s)"
  by (auto simp: asurite_id_takeWhile takeWhile_tail)

theorem asurite_id_before_first_dash_witness:
  "CHR ''-'' \<notin> set ''abc123'' \<and> asurite_id (''abc123'' @ CHR ''-'' # ''final'') = ''abc123'' \<and>
   CHR ''-'' \<notin> set ''nodash'' \<and> asurite_id ''nodash'' = ''nodash''"
  using asurite_id_before_first_dash [of "''abc123''" "''final''" "''nodash''"]
  by simp

section \<open>The requirement loader\<close>

lemma join_nl_snoc:
  "join_nl (xs @ [p]) = (if xs = [] then p else join_nl xs @ nl # p)"
  by (induction xs rule: join_nl.induct) auto

lemma accumulate_pages_snoc:
  "accumulate_pages acc (doc @ [p]) =
     (if length (join_nl (accumulate_pages acc doc)) + length p < 2500
      then accumulate_pages acc doc @ [p] else accumulate_pages acc doc)"
  by (induction doc arbitrary: acc) auto

lemma accumulate_pages_bound:
  "length (join_nl acc) \<le> 2500 \<Longrightarrow> length (join_nl (accumulate_pages acc doc)) \<le> 2500"
proof (induction doc arbitrary: acc)
  case Nil
  then show ?case by simp
next
  case (Cons p doc)
  show ?case
  proof (cases "length (join_nl acc) + length p < 2500")
    case True
    then have "length (join_nl (acc @ [p])) \<le> 2500"
      by (simp add: join_nl_snoc)
    from Cons.IH [OF this] True show ?thesis by simp
  next
    case False
    with Cons show ?thesis by simp
  qed
qed

lemma accumulate_pages_subseq:
  "\<exists>ks. accumulate_pages acc doc = acc @ ks \<and> subseq ks doc"
proof (induction doc arbitrary: acc)
  case Nil
  then show ?case by simp
next
  case (Cons p doc)
  show ?case
  proof (cases "length (join_nl acc) + length p < 2500")
    case True
    from Cons.IH [of "acc @ [p]"] obtain ks
      where "accumulate_pages (acc @ [p]) doc = (acc @ [p]) @ ks" "subseq ks doc" by blast
    with True have "accumulate_pages acc (p # doc) = acc @ (p # ks) \<and> subseq (p # ks) (p # doc)"
      by simp
    then show ?thesis by blast
  next
    case False
    from Cons.IH [of acc] obtain ks
      where "accumulate_pages acc doc = acc @ ks" "subseq ks doc" by blast
    with False have "accumulate_pages acc (p # doc) = acc @ ks \<and> subseq ks (p # doc)"
      by (auto intro: list_emb_Cons)
    then show ?thesis by blast
  qed
qed

text \<open>
  C1, as amended: the loader takes the pages in order and appends a page exactly when the
  length of the text joined so far plus the length of the page is under 2500; a page
  that would reach or cross the budget is left out whole and the pages after it are
  still tested. The pages kept are joined with newlines, and the text returned is at
  most 2500 characters long.
\<close>

theorem extract_requirements_budget:
  "accumulate_pages [] (doc @ [page_text]) =
     (if length (join_nl (accumulate_pages [] doc)) + length page_text < 2500
      then accumulate_pages [] doc @ [page_text] else accumulate_pages [] doc) \<and>
   subseq (accumulate_pages [] doc) doc \<and>
   length (join_nl (accumulate_pages [] doc)) \<le> 2500 \<and>
   (fitz_open pdf_path = Inr doc \<longrightarrow>
      extract_requirements fitz_open pdf_path =
        ([], Returned (join_nl (accumulate_pages [] doc))))"
  using accumulate_pages_snoc [of "[]" doc page_text] accumulate_pages_bound [of "[]" doc]
    accumulate_pages_subseq [of "[]" doc]
  by (auto simp: extract_requirements_def)

theorem extract_requirements_budget_witness:
  "accumulate_pages [] ([replicate 2000 (CHR ''a''), replicate 1000 (CHR ''b'')] @ [''c'']) =
     [replicate 2000 (CHR ''a''), ''c''] \<and>
   (\<lambda>p. Inr [replicate 2000 (CHR ''a''), replicate 1000 (CHR ''b'')]) ''rubric.pdf'' =
     (Inr [replicate 2000 (CHR ''a''), replicate 1000 (CHR ''b'')] :: exn + string list) \<and>
   extract_requirements (\<lambda>p. Inr [replicate 2000 (CHR ''a''), replicate 1000 (CHR ''b'')])
     ''rubric.pdf'' = ([], Returned (replicate 2000 (CHR ''a'')))"
  using extract_requirements_budget
    [of "[replicate 2000 (CHR ''a''), replicate 1000 (CHR ''b'')]" "''c''"
        "\<lambda>p. Inr [replicate 2000 (CHR ''a''), replicate 1000 (CHR ''b'')]" "''rubric.pdf''"]
  by simp

text \<open>
  Pages of 2000, 1000 and 1 characters: the code skips the second page and appends the
  third, where the loader as worded keeps the second page whole and stops.
\<close>

theorem crossing_page_counterexample:
  "accumulate_pages [] [replicate 2000 (CHR ''a''), replicate 1000 (CHR ''b''), ''c''] =
     [replicate 2000 (CHR ''a''), ''c''] \<and>
   spec_accumulate_pages [] [replicate 2000 (CHR ''a''), replicate 1000 (CHR ''b''), ''c''] =
     [replicate 2000 (CHR ''a''), replicate 1000 (CHR ''b'')] \<and>
   length (join_nl (accumulate_pages []
     [replicate 2000 (CHR ''a''), replicate 1000 (CHR ''b''), ''c''])) = 2002 \<and>
   length (join_nl (spec_accumulate_pages []
     [replicate 2000 (CHR ''a''), replicate 1000 (CHR ''b''), ''c''])) = 3001"
  by simp

section \<open>Fallbacks of the parser\<close>

lemma no_score_default: "score_match reply = None \<Longrightarrow> fst (snd (parse_llm_response reply)) = 5"
  by (simp add: parse_llm_response_def parse_body_def)

lemma no_feedback_placeholder:
  "feedback_match reply = None \<Longrightarrow> parse_body reply = Inr r \<Longrightarrow>
     snd (snd (parse_llm_response reply)) = ''No feedback parsed''"
  by (auto simp: parse_llm_response_def parse_body_def split: sum.splits)

lemma parse_body_raises:
  "parse_body reply = Inl e \<longleftrightarrow> (\<exists>g. score_match reply = Some g \<and> py_float g = Inl e)"
  by (auto simp: parse_body_def Let_def split: sum.splits option.splits)

lemma parse_raise_fallback:
  "parse_body reply = Inl e \<Longrightarrow>
     parse_llm_response reply = ([ParseError (exn_msg e)], 5, ''Could not parse analysis results'')"
  by (simp add: parse_llm_response_def DEBUG_MODE_def)

text \<open>
  C5, as amended: a reply without a score field gets the score 5; a reply without a
  feedback field whose parsing does not raise gets the text \<open>No feedback parsed\<close>; a
  reply whose parsing raises (the captured score text is not a numeral) is answered with
  5 and the other text \<open>Could not parse analysis results\<close>, after the error is printed.
  The parser returns a pair in every case.
\<close>

theorem parse_fallbacks:
  "(score_match reply = None \<longrightarrow> fst (snd (parse_llm_response reply)) = 5) \<and>
   (feedback_match reply = None \<and> parse_body reply = Inr r \<longrightarrow>
      snd (snd (parse_llm_response reply)) = ''No feedback parsed'') \<and>
   (score_match reply = Some g \<and> py_float g = Inl e \<longrightarrow>
      parse_llm_response reply =
        ([ParseError (exn_msg e)], 5, ''Could not parse analysis results''))"
  using no_score_default [of reply] no_feedback_placeholder [of reply r]
    parse_raise_fallback [of reply e] parse_body_raises [of reply e]
  by blast

theorem parse_fallbacks_witness:
  "score_match ''no fields'' = None \<and> fst (snd (parse_llm_response ''no fields'')) = 5 \<and>
   feedback_match ''Score|7|'' = None \<and> parse_body ''Score|7|'' = Inr (7, ''No feedback parsed'') \<and>
   snd (snd (parse_llm_response ''Score|7|'')) = ''No feedback parsed'' \<and>
   score_match ''Score|1.2.3|'' = Some ''1.2.3'' \<and> py_float ''1.2.3'' = Inl (float_error ''1.2.3'') \<and>
   parse_llm_response ''Score|1.2.3|'' =
     ([ParseError (exn_msg (float_error ''1.2.3''))], 5, ''Could not parse analysis results'')"
proof -
  have a: "score_match ''no fields'' = None" by (simp add: eval_parse)
  have b: "feedback_match ''Score|7|'' = None" by (simp add: eval_parse)
  have c: "parse_body ''Score|7|'' = Inr (7, ''No feedback parsed'')" by (simp add: eval_parse)
  have d: "score_match ''Score|1.2.3|'' = Some ''1.2.3''" by (simp add: eval_parse)
  have e: "py_float ''1.2.3'' = Inl (float_error ''1.2.3'')" by (simp add: eval_parse)
  from parse_fallbacks [of "''no fields''"] a
  have 1: "fst (snd (parse_llm_response ''no fields'')) = 5" by blast
  from parse_fallbacks [of "''Score|7|''" "(7, ''No feedback parsed'')"] b c
  have 2: "snd (snd (parse_llm_response ''Score|7|'')) = ''No feedback parsed''" by blast
  from parse_fallbacks [of "''Score|1.2.3|''" _ "''1.2.3''" "float_error ''1.2.3''"] d e
  have 3: "parse_llm_response ''Score|1.2.3|'' =
     ([ParseError (exn_msg (float_error ''1.2.3''))], 5, ''Could not parse analysis results'')"
    by blast
  from a b c d e 1 2 3 show ?thesis by blast
qed

text \<open>
  The reply \<open>Score|1.2.3|\<close> has no feedback field and its parsing raises; the text
  returned is not the one returned for a missing feedback field.
\<close>

theorem parse_exception_placeholder_counterexample:
  "feedback_match ''Score|1.2.3|'' = None \<and>
   parse_body ''Score|1.2.3|'' = Inl (float_error ''1.2.3'') \<and>
   snd (snd (parse_llm_response ''Score|1.2.3|'')) = ''Could not parse analysis results'' \<and>
   snd (snd (parse_llm_response ''Score|7|'')) = ''No feedback parsed'' \<and>
   snd (snd (parse_llm_response ''Score|1.2.3|'')) \<noteq> snd (snd (parse_llm_response ''Score|7|''))"
  by (simp add: eval_parse)


section \<open>Negative scores\<close>

lemma strip_prefix_append:
  "length p \<le> length a \<Longrightarrow> strip_prefix p (a @ b) = map_option (\<lambda>r. r @ b) (strip_prefix p a)"
  by (induction p a rule: strip_prefix.induct) auto

lemma takeWhile_append_stop:
  "\<not> P x \<Longrightarrow> takeWhile P r = [] \<Longrightarrow> takeWhile P (r @ x # xs) = []"
  by (cases r) (auto split: if_splits)

lemma match_score_at_long:
  assumes "6 \<le> length pre" "match_score_at pre = None"
  shows "match_score_at (pre @ ''Score|-'' @ rest) = None"
proof -
  have l: "length ''Score|'' \<le> length pre" using assms(1) by simp
  show ?thesis
    using assms(2) takeWhile_append_stop [of is_score_char "CHR ''S''"]
    unfolding match_score_at_def strip_prefix_append [OF l]
    by (auto simp: is_score_char_def is_digit_def Let_def split: option.splits if_splits)
qed

lemma short_list:
  "length (xs :: 'a list) < 6 \<Longrightarrow>
     xs = [] \<or> (\<exists>a. xs = [a]) \<or> (\<exists>a b. xs = [a, b]) \<or> (\<exists>a b c. xs = [a, b, c]) \<or>
     (\<exists>a b c d. xs = [a, b, c, d]) \<or> (\<exists>a b c d e. xs = [a, b, c, d, e])"
  by (cases xs; simp; cases "tl xs"; simp; cases "tl (tl xs)"; simp; cases "tl (tl (tl xs))"; simp;
      cases "tl (tl (tl (tl xs)))"; simp; cases "tl (tl (tl (tl (tl xs))))"; simp)

lemma match_score_at_short:
  assumes "length pre < 6"
  shows "match_score_at (pre @ ''Score|-'' @ rest) = None"
  using short_list [OF assms]
  by (auto simp: match_score_at_def is_score_char_def is_digit_def)

lemma match_score_at_append:
  "match_score_at pre = None \<Longrightarrow> match_score_at (pre @ ''Score|-'' @ rest) = None"
  using match_score_at_long [of pre rest] match_score_at_short [of pre rest]
  by (cases "length pre < 6") auto

lemma re_search_score_negative:
  "re_search match_score_at pre = None \<Longrightarrow> re_search match_score_at rest = None \<Longrightarrow>
     re_search match_score_at (pre @ ''Score|-'' @ rest) = None"
proof (induction pre)
  case Nil
  then show ?case
    by (simp add: match_score_at_def is_score_char_def is_digit_def)
next
  case (Cons c cs)
  from Cons.prems(1) have m: "match_score_at (c # cs) = None" and r: "re_search match_score_at cs = None"
    by (auto split: option.splits)
  from match_score_at_append [OF m, of rest] Cons.IH [OF r Cons.prems(2)]
  show ?case by simp
qed

text \<open>
  C10: a reply whose score field holds a negative number, \<open>Score|-\<dots>\<close>, with no score
  field matched before or after it, yields the missing-score default 5: the class
  \<open>[0-9.]\<close> does not match the minus sign, so the score pattern does not match at all.
\<close>

theorem negative_score_takes_default:
  "score_match pre = None \<Longrightarrow> score_match rest = None \<Longrightarrow>
     score_match (pre @ ''Score|-'' @ rest) = None \<and>
     fst (snd (parse_llm_response (pre @ ''Score|-'' @ rest))) = 5"
  using re_search_score_negative [of pre rest] no_score_default [of "pre @ ''Score|-'' @ rest"]
  by (simp add: score_match_def)

theorem negative_score_takes_default_witness:
  "score_match [] = None \<and> score_match ''3|'' = None \<and>
   score_match ''Score|-3|'' = None \<and> fst (snd (parse_llm_response ''Score|-3|'')) = 5"
proof -
  have a: "score_match [] = None" by (simp add: eval_parse)
  have b: "score_match ''3|'' = None" by (simp add: eval_parse)
  from negative_score_takes_default [OF a b] a b show ?thesis by simp
qed

section \<open>Replies that follow the template\<close>

lemma digits_score_chars: "list_all is_digit xs \<Longrightarrow> list_all is_score_char xs"
  by (induction xs) (auto simp: is_score_char_def)

lemma takeWhile_digits: "list_all is_digit (takeWhile is_digit s)"
  by (induction s) auto

lemma py_float_score_chars:
  assumes "py_float s = Inr v"
  shows "s \<noteq> [] \<and> list_all is_score_char s"
proof -
  define ip where "ip = takeWhile is_digit s"
  define r where "r = dropWhile is_digit s"
  have s: "s = ip @ r"
    by (simp add: ip_def r_def)
  have d: "list_all is_score_char ip"
    unfolding ip_def by (rule digits_score_chars [OF takeWhile_digits])
  from assms have f: "(case r of
        [] \<Rightarrow> if ip = [] then Inl (float_error s) else Inr (of_nat (decimal ip))
      | c # fp \<Rightarrow>
          if c = CHR ''.'' \<and> list_all is_digit fp \<and> (ip \<noteq> [] \<or> fp \<noteq> [])
          then Inr (of_nat (decimal ip) + of_nat (decimal fp) / 10 ^ length fp)
          else Inl (float_error s)) = Inr v"
    unfolding py_float_def Let_def ip_def r_def .
  show ?thesis
  proof (cases r)
    case Nil
    with f have "ip \<noteq> []" by (simp split: if_splits)
    with d show ?thesis unfolding s Nil by simp
  next
    case (Cons c fp)
    with f have "c = CHR ''.''" "list_all is_digit fp"
      by (simp_all split: if_splits)
    with d digits_score_chars [of fp] show ?thesis
      unfolding s Cons by (simp add: is_score_char_def)
  qed
qed

lemma takeWhile_all_then_stop:
  "list_all P xs \<Longrightarrow> \<not> P y \<Longrightarrow> takeWhile P (xs @ y # ys) = xs"
  by (induction xs) auto

lemma dropWhile_all_then_stop:
  "list_all P xs \<Longrightarrow> \<not> P y \<Longrightarrow> dropWhile P (xs @ y # ys) = y # ys"
  by (induction xs) auto

lemma match_score_at_field:
  "num \<noteq> [] \<Longrightarrow> list_all is_score_char num \<Longrightarrow>
     match_score_at (''Score|'' @ num @ CHR ''|'' # rest) = Some num"
  using takeWhile_all_then_stop [of is_score_char num "CHR ''|''" rest]
  by (simp add: match_score_at_def is_score_char_def is_digit_def)

lemma match_feedback_at_field:
  "list_all is_feedback_char fb \<Longrightarrow>
     match_feedback_at (''Feedback|'' @ fb @ CHR ''|'' # rest) = Some fb"
  using takeWhile_all_then_stop [of is_feedback_char fb "CHR ''|''" rest]
    dropWhile_all_then_stop [of is_feedback_char fb "CHR ''|''" rest]
  by (simp add: match_feedback_at_def is_feedback_char_def)

lemma match_feedback_at_other:
  "c \<noteq> CHR ''F'' \<Longrightarrow> match_feedback_at (c # cs) = None"
  by (simp add: match_feedback_at_def)

lemma re_search_feedback_skip:
  "\<forall>c \<in> set pre. c \<noteq> CHR ''F'' \<Longrightarrow>
     re_search match_feedback_at (pre @ c # cs) = re_search match_feedback_at (c # cs)"
  by (induction pre) (auto simp: match_feedback_at_other)

lemma score_char_not_F: "is_score_char c \<Longrightarrow> c \<noteq> CHR ''F''"
  by (auto simp: is_score_char_def is_digit_def)

lemma score_chars_not_F: "list_all is_score_char num \<Longrightarrow> \<forall>c \<in> set num. c \<noteq> CHR ''F''"
  using score_char_not_F by (auto simp: list_all_iff)

lemma template_matches:
  assumes "num \<noteq> []" "list_all is_score_char num" "list_all is_feedback_char fb"
  shows "score_match (''Score|'' @ num @ ''|'' @ [nl] @ ''Feedback|'' @ fb @ ''|'') = Some num"
    and "feedback_match (''Score|'' @ num @ ''|'' @ [nl] @ ''Feedback|'' @ fb @ ''|'') = Some fb"
proof -
  show "score_match (''Score|'' @ num @ ''|'' @ [nl] @ ''Feedback|'' @ fb @ ''|'') = Some num"
    using match_score_at_field [OF assms(1,2), of "[nl] @ ''Feedback|'' @ fb @ ''|''"]
    by (simp add: score_match_def)
  have "\<forall>c \<in> set (''Score|'' @ num @ ''|'' @ [nl]). c \<noteq> CHR ''F''"
    using score_chars_not_F [OF assms(2)] by (auto simp: nl_def)
  from re_search_feedback_skip [OF this, of "CHR ''F''" "''eedback|'' @ fb @ ''|''"]
  have "feedback_match (''Score|'' @ num @ ''|'' @ [nl] @ ''Feedback|'' @ fb @ ''|'') =
      re_search match_feedback_at (''Feedback|'' @ fb @ ''|'')"
    by (simp add: feedback_match_def)
  also have "\<dots> = Some fb"
    using match_feedback_at_field [OF assms(3), of "[]"] by simp
  finally show "feedback_match (''Score|'' @ num @ ''|'' @ [nl] @ ''Feedback|'' @ fb @ ''|'') = Some fb" .
qed

text \<open>
  C7, as amended: for a reply that is exactly \<open>Score|num|\<close>, a newline and
  \<open>Feedback|fb|\<close>, where \<open>num\<close> is a numeral (digits with at most one point) and \<open>fb\<close>
  has no bar and no newline, the two patterns capture \<open>num\<close> and \<open>fb\<close> verbatim, and the
  parser returns the value of \<open>num\<close> clamped to the range from 0 to 10 together with
  \<open>fb\<close> stripped of leading and trailing whitespace.
\<close>

theorem template_round_trip:
  assumes "py_float num = Inr v" "list_all is_feedback_char fb"
  shows "score_match (''Score|'' @ num @ ''|'' @ [nl] @ ''Feedback|'' @ fb @ ''|'') = Some num \<and>
    feedback_match (''Score|'' @ num @ ''|'' @ [nl] @ ''Feedback|'' @ fb @ ''|'') = Some fb \<and>
    parse_llm_response (''Score|'' @ num @ ''|'' @ [nl] @ ''Feedback|'' @ fb @ ''|'') =
      ([], max 0 (min 10 v), strip fb)"
proof -
  from py_float_score_chars [OF assms(1)] have n: "num \<noteq> []" "list_all is_score_char num"
    by simp_all
  from template_matches [OF n assms(2)] assms(1) show ?thesis
    by (simp add: parse_llm_response_def parse_body_def)
qed

theorem template_round_trip_witness:
  "py_float ''7.5'' = Inr (15 / 2) \<and> list_all is_feedback_char ''Good work'' \<and>
   parse_llm_response (''Score|'' @ ''7.5'' @ ''|'' @ [nl] @ ''Feedback|'' @ ''Good work'' @ ''|'') =
     ([], 15 / 2, ''Good work'')"
proof -
  have a: "py_float ''7.5'' = Inr (15 / 2)" by (simp add: eval_parse)
  have b: "list_all is_feedback_char ''Good work''" by (simp add: eval_parse)
  have c: "strip ''Good work'' = ''Good work''" by (simp add: eval_parse)
  from template_round_trip [OF a b] a b c show ?thesis by simp
qed

text \<open>
  The reply \<open>Score|7.5|\<close>, newline, \<open>Feedback| ok |\<close> matches the template with the text
  \<open>ok\<close> between two spaces; the parser returns it without the spaces.
\<close>

theorem template_verbatim_counterexample:
  "parse_llm_response (''Score|'' @ ''7.5'' @ ''|'' @ [nl] @ ''Feedback|'' @ '' ok '' @ ''|'') =
     ([], 15 / 2, ''ok'') \<and> ''ok'' \<noteq> '' ok ''"
  by (simp add: eval_parse)

section \<open>Inference failures\<close>

lemma analyze_submission_failure:
  "generate (prompt file_path content requirements) = Inl e \<Longrightarrow>
     analyze_submission generate file_path content requirements =
       ([ErrorAnalyzing file_path (exn_msg e)], 0, ''Analysis failed'')"
  by (simp add: analyze_submission_def)

lemma analyze_submission_no_text:
  "generate (prompt file_path content requirements) = Inr response \<Longrightarrow>
   response ''response'' = None \<Longrightarrow>
     snd (analyze_submission generate file_path content requirements) = (0, ''Analysis failed'')"
  by (simp add: analyze_submission_def)

lemma process_file_inference_failure:
  "eligible file \<Longrightarrow> read_text file = Inr content \<Longrightarrow>
   generate (prompt (rel_path file) content requirements) = Inl e \<Longrightarrow>
     process_file generate requirements sid file (tot, w) =
       (tot,
        (say [Analyzing (rel_path file), ErrorAnalyzing (rel_path file) (exn_msg e),
              ScoreLine 0, FeedbackLine ''Analysis failed''] w)
          \<lparr>csv_rows := csv_rows w @
             [\<lparr>row_id = sid, row_file = rel_path file, row_score = 0,
               row_feedback = ''Analysis failed'', row_total = tot\<rparr>]\<rparr>)"
  by (simp add: process_file_def analyze_submission_failure)

lemma process_archive_returns:
  "open_zip a = None \<Longrightarrow> extractall a = Inr files \<Longrightarrow>
     fst (process_archive generate requirements a w) = Returned ()"
  by (simp add: process_archive_def Let_def split: prod.splits)

lemma process_archives_returns:
  "\<forall>a \<in> set archives. open_zip a = None \<and> (\<exists>files. extractall a = Inr files) \<Longrightarrow>
     fst (process_archives generate requirements archives w) = Returned ()"
proof (induction archives arbitrary: w)
  case Nil
  then show ?case by simp
next
  case (Cons a as)
  then obtain files where "open_zip a = None" "extractall a = Inr files" by auto
  from process_archive_returns [OF this, of generate requirements w]
  obtain w' where "process_archive generate requirements a w = (Returned (), w')"
    by (cases "process_archive generate requirements a w") auto
  with Cons show ?case by simp
qed

text \<open>
  C4: when the inference call raises, or its response has no text, the result of
  \<open>analyze_submission\<close> is the pair of 0 and \<open>Analysis failed\<close> and the error is printed
  with the file path; the file loop writes that row and goes on with the next file, and
  whatever the service does, a batch whose archives open and extract runs to its end.
\<close>

theorem inference_failure_fallback:
  "(generate (prompt file_path content requirements) = Inl e \<longrightarrow>
      analyze_submission generate file_path content requirements =
        ([ErrorAnalyzing file_path (exn_msg e)], 0, ''Analysis failed'')) \<and>
   (generate (prompt file_path content requirements) = Inr response \<and>
    response ''response'' = None \<longrightarrow>
      snd (analyze_submission generate file_path content requirements) =
        (0, ''Analysis failed'')) \<and>
   (eligible file \<and> read_text file = Inr content \<and>
    generate (prompt (rel_path file) content requirements) = Inl e \<longrightarrow>
      process_files generate requirements sid (file # files) (tot, w) =
        process_files generate requirements sid files
          (tot,
           (say [Analyzing (rel_path file), ErrorAnalyzing (rel_path file) (exn_msg e),
                 ScoreLine 0, FeedbackLine ''Analysis failed''] w)
             \<lparr>csv_rows := csv_rows w @
                [\<lparr>row_id = sid, row_file = rel_path file, row_score = 0,
                  row_feedback = ''Analysis failed'', row_total = tot\<rparr>]\<rparr>)) \<and>
   ((\<forall>a \<in> set archives. open_zip a = None \<and> (\<exists>fs. extractall a = Inr fs)) \<longrightarrow>
      fst (process_archives generate requirements archives w) = Returned ())"
  using analyze_submission_failure [of generate file_path content requirements e]
    analyze_submission_no_text [of generate file_path content requirements response]
    process_file_inference_failure [of "file" content generate requirements e sid tot w]
    process_archives_returns [of archives generate requirements w]
  by simp

theorem inference_failure_fallback_witness:
  "service_down (prompt ''main.py'' ''print(1)'' ''req'') =
     Inl (Exn ''ConnectionError'' ''connection refused'') \<and>
   analyze_submission service_down ''main.py'' ''print(1)'' ''req'' =
     ([ErrorAnalyzing ''main.py'' ''connection refused''], 0, ''Analysis failed'') \<and>
   service_no_text (prompt ''main.py'' ''print(1)'' ''req'') = Inr Map.empty \<and>
   snd (analyze_submission service_no_text ''main.py'' ''print(1)'' ''req'') =
     (0, ''Analysis failed'') \<and>
   eligible main_py \<and> read_text main_py = Inr ''print(1)'' \<and>
   csv_rows (snd (process_files service_down ''req'' ''abc123'' [main_py, config_yaml]
       (0, example_world))) =
     [\<lparr>row_id = ''abc123'', row_file = ''main.py'', row_score = 0,
        row_feedback = ''Analysis failed'', row_total = 0\<rparr>,
      \<lparr>row_id = ''abc123'', row_file = ''config.yaml'', row_score = 0,
        row_feedback = ''Analysis failed'', row_total = 0\<rparr>] \<and>
   open_zip abc123_zip = None \<and> extractall abc123_zip = Inr [main_py, config_yaml] \<and>
   fst (process_archives service_down ''req'' [abc123_zip, abc123_zip] example_world) =
     Returned ()"
proof -
  have d: "service_down (prompt ''main.py'' ''print(1)'' ''req'') =
      Inl (Exn ''ConnectionError'' ''connection refused'')"
    by (simp add: service_down_def)
  have n: "service_no_text (prompt ''main.py'' ''print(1)'' ''req'') = Inr Map.empty"
    by (simp add: service_no_text_def)
  have f: "eligible main_py" "read_text main_py = Inr ''print(1)''" "rel_path main_py = ''main.py''"
    by (simp_all add: eligible_def main_py_def)
  have z: "open_zip abc123_zip = None" "extractall abc123_zip = Inr [main_py, config_yaml]"
    by (simp_all add: abc123_zip_def)
  have a: "\<forall>a \<in> set [abc123_zip, abc123_zip]. open_zip a = None \<and> (\<exists>fs. extractall a = Inr fs)"
    using z by simp
  note t1 = inference_failure_fallback
    [of service_down "''main.py''" "''print(1)''" "''req''" "Exn ''ConnectionError'' ''connection refused''"
        _ main_py "''abc123''" "[config_yaml]" 0 example_world "[abc123_zip, abc123_zip]"]
  note t2 = inference_failure_fallback
    [of service_no_text "''main.py''" "''print(1)''" "''req''" _ Map.empty]
  from t1 d have 1: "analyze_submission service_down ''main.py'' ''print(1)'' ''req'' =
     ([ErrorAnalyzing ''main.py'' ''connection refused''], 0, ''Analysis failed'')"
    by simp
  from t2 n have 2: "snd (analyze_submission service_no_text ''main.py'' ''print(1)'' ''req'') =
     (0, ''Analysis failed'')"
    by simp
  from t1 d f have "process_files service_down ''req'' ''abc123'' [main_py, config_yaml]
       (0, example_world) =
     process_files service_down ''req'' ''abc123'' [config_yaml]
       (0, (say [Analyzing ''main.py'', ErrorAnalyzing ''main.py'' ''connection refused'',
             ScoreLine 0, FeedbackLine ''Analysis failed''] example_world)
          \<lparr>csv_rows := csv_rows example_world @
             [\<lparr>row_id = ''abc123'', row_file = ''main.py'', row_score = 0,
               row_feedback = ''Analysis failed'', row_total = 0\<rparr>]\<rparr>)"
    by simp
  then have 3: "csv_rows (snd (process_files service_down ''req'' ''abc123'' [main_py, config_yaml]
       (0, example_world))) =
     [\<lparr>row_id = ''abc123'', row_file = ''main.py'', row_score = 0,
        row_feedback = ''Analysis failed'', row_total = 0\<rparr>,
      \<lparr>row_id = ''abc123'', row_file = ''config.yaml'', row_score = 0,
        row_feedback = ''Analysis failed'', row_total = 0\<rparr>]"
    by (simp add: eval_process eval_examples)
  from t1 a have 4: "fst (process_archives service_down ''req'' [abc123_zip, abc123_zip]
      example_world) = Returned ()"
    by blast
  from d n f z 1 2 3 4 show ?thesis by simp
qed

section \<open>The running total\<close>

lemma analyze_submission_bounds:
  "analyze_submission generate file_path content requirements = (out, s, f) \<Longrightarrow>
     0 \<le> s \<and> s \<le> 10"
  using parse_llm_response_bounds
  by (auto simp: analyze_submission_def split: sum.splits option.splits prod.splits)

lemma process_file_effect:
  assumes "process_file generate requirements sid file (t, w) = (t', w')"
  shows "dirs w' = dirs w \<and>
    ((csv_rows w' = csv_rows w \<and> t' = t) \<or>
     (\<exists>row. csv_rows w' = csv_rows w @ [row] \<and> 0 \<le> row_score row \<and>
        row_total row = t + row_score row \<and> t' = row_total row))"
proof (cases "eligible file")
  case False
  with assms show ?thesis by (simp add: process_file_def)
next
  case True
  show ?thesis
  proof (cases "read_text file")
    case (Inl e)
    with True assms show ?thesis by (auto simp: process_file_def say_def)
  next
    case (Inr content)
    obtain out s f
      where a: "analyze_submission generate (rel_path file) content requirements = (out, s, f)"
      by (cases "analyze_submission generate (rel_path file) content requirements") auto
    from analyze_submission_bounds [OF a] have "0 \<le> s" by simp
    with True Inr a assms show ?thesis
      by (auto simp: process_file_def say_def)
  qed
qed

lemma process_files_effect:
  "process_files generate requirements sid files (t, w) = (t', w') \<Longrightarrow>
     dirs w' = dirs w \<and>
     (\<exists>new. csv_rows w' = csv_rows w @ new \<and>
        (\<forall>row \<in> set new. 0 \<le> row_score row \<and> t \<le> row_total row) \<and>
        sorted (map row_total new) \<and>
        (\<forall>i < length new.
           row_total (new ! i) = t + sum_list (map row_score (take (Suc i) new))))"
proof (induction files arbitrary: t w)
  case Nil
  then show ?case by simp
next
  case (Cons f0 files)
  obtain t1 w1 where s: "process_file generate requirements sid f0 (t, w) = (t1, w1)"
    by (cases "process_file generate requirements sid f0 (t, w)") auto
  with Cons.prems have r: "process_files generate requirements sid files (t1, w1) = (t', w')"
    by simp
  from Cons.IH [OF r] obtain new2 where d2: "dirs w' = dirs w1"
    and n2: "csv_rows w' = csv_rows w1 @ new2"
    and p2: "\<forall>row \<in> set new2. 0 \<le> row_score row \<and> t1 \<le> row_total row"
    and s2: "sorted (map row_total new2)"
    and i2: "\<forall>i < length new2.
           row_total (new2 ! i) = t1 + sum_list (map row_score (take (Suc i) new2))"
    by blast
  from process_file_effect [OF s] have d1: "dirs w1 = dirs w"
    and c: "(csv_rows w1 = csv_rows w \<and> t1 = t) \<or>
     (\<exists>row. csv_rows w1 = csv_rows w @ [row] \<and> 0 \<le> row_score row \<and>
        row_total row = t + row_score row \<and> t1 = row_total row)"
    by simp_all
  from c show ?case
  proof
    assume "csv_rows w1 = csv_rows w \<and> t1 = t"
    with d1 d2 n2 p2 s2 i2 show ?thesis by auto
  next
    assume "\<exists>row. csv_rows w1 = csv_rows w @ [row] \<and> 0 \<le> row_score row \<and>
        row_total row = t + row_score row \<and> t1 = row_total row"
    then obtain row where r1: "csv_rows w1 = csv_rows w @ [row]" and r2: "0 \<le> row_score row"
      and r3: "row_total row = t + row_score row" and r4: "t1 = row_total row"
      by blast
    have a: "csv_rows w' = csv_rows w @ (row # new2)"
      using n2 r1 by simp
    have b: "\<forall>x \<in> set (row # new2). 0 \<le> row_score x \<and> t \<le> row_total x"
      using p2 r2 r3 r4 by auto
    have c: "sorted (map row_total (row # new2))"
      using s2 p2 r4 by auto
    have d: "\<forall>i < length (row # new2).
           row_total ((row # new2) ! i) = t + sum_list (map row_score (take (Suc i) (row # new2)))"
    proof (intro allI impI)
      fix i assume "i < length (row # new2)"
      then show "row_total ((row # new2) ! i) =
          t + sum_list (map row_score (take (Suc i) (row # new2)))"
        using i2 r3 r4 by (cases i) auto
    qed
    from a b c d d1 d2 show ?thesis by metis
  qed
qed

lemma process_archive_failure:
  "open_zip a = Some e \<or> (open_zip a = None \<and> extractall a = Inl e) \<Longrightarrow>
     process_archive generate requirements a w =
       (Raised e, say [ProcessingSubmission (asurite_id (stem a))] w)"
  by (auto simp: process_archive_def Let_def)

lemma process_archive_success:
  "open_zip a = None \<Longrightarrow> extractall a = Inr files \<Longrightarrow>
     process_archive generate requirements a w =
       (Returned (),
        rmtree (''temp/'' @ asurite_id (stem a)) (rmtree_removes a)
          (snd (process_files generate requirements (asurite_id (stem a)) files
             (0, if files = [] then say [ProcessingSubmission (asurite_id (stem a))] w
                 else (say [ProcessingSubmission (asurite_id (stem a))] w)
                   \<lparr>dirs := insert (''temp/'' @ asurite_id (stem a))
                      (dirs (say [ProcessingSubmission (asurite_id (stem a))] w))\<rparr>))))"
  by (simp add: process_archive_def Let_def split: prod.splits)

text \<open>
  C9: the rows written for one submission carry a running total that starts from zero
  for that submission (each total is the sum of the submission's scores so far) and never
  decreases from one row to the next, every score added being non-negative.
\<close>

theorem running_total_per_submission:
  "\<exists>new. csv_rows (snd (process_archive generate requirements a w)) = csv_rows w @ new \<and>
     (\<forall>row \<in> set new. 0 \<le> row_score row) \<and>
     sorted (map row_total new) \<and>
     (\<forall>i < length new. row_total (new ! i) = sum_list (map row_score (take (Suc i) new)))"
proof -
  define sid where "sid = asurite_id (stem a)"
  define w1 where "w1 = say [ProcessingSubmission sid] w"
  have e: "csv_rows w1 = csv_rows w" by (simp add: w1_def say_def)
  have triv: "csv_rows w1 = csv_rows w @ [] \<and>
     (\<forall>row \<in> set ([] :: row list). 0 \<le> row_score row) \<and>
     sorted (map row_total []) \<and>
     (\<forall>i < length ([] :: row list). row_total ([] ! i) = sum_list (map row_score (take (Suc i) [])))"
    using e by simp
  show ?thesis
  proof (cases "open_zip a = None \<and> (\<exists>files. extractall a = Inr files)")
    case False
    then obtain ex where "open_zip a = Some ex \<or> (open_zip a = None \<and> extractall a = Inl ex)"
      by (cases "open_zip a"; cases "extractall a") auto
    from process_archive_failure [OF this, of generate requirements w]
    have "snd (process_archive generate requirements a w) = w1"
      by (simp add: w1_def sid_def)
    with triv show ?thesis by metis
  next
    case True
    then obtain files where o: "open_zip a = None" and x: "extractall a = Inr files" by blast
    define w2 where "w2 = (if files = [] then w1
          else w1\<lparr>dirs := insert (''temp/'' @ sid) (dirs w1)\<rparr>)"
    obtain t3 w3 where p: "process_files generate requirements sid files (0, w2) = (t3, w3)"
      by (cases "process_files generate requirements sid files (0, w2)") auto
    have e2: "csv_rows w2 = csv_rows w" using e by (simp add: w2_def)
    from process_archive_success [OF o x, of generate requirements w] p
    have "snd (process_archive generate requirements a w) =
          rmtree (''temp/'' @ sid) (rmtree_removes a) w3"
      unfolding w2_def w1_def sid_def by simp
    then have r: "csv_rows (snd (process_archive generate requirements a w)) = csv_rows w3"
      by (simp add: rmtree_def)
    from process_files_effect [OF p] e2 r show ?thesis
      by auto
  qed
qed

theorem running_total_per_submission_witness:
  "map row_total (csv_rows (snd (process_archive service_ok ''req'' abc123_zip example_world))) =
     [15 / 2, 15] \<and>
   (\<exists>new. csv_rows (snd (process_archive service_ok ''req'' abc123_zip example_world)) =
       csv_rows example_world @ new \<and>
     (\<forall>row \<in> set new. 0 \<le> row_score row) \<and>
     sorted (map row_total new) \<and>
     (\<forall>i < length new. row_total (new ! i) = sum_list (map row_score (take (Suc i) new))))"
proof -
  have "map row_total (csv_rows (snd (process_archive service_ok ''req'' abc123_zip
      example_world))) = [15 / 2, 15]"
    by (simp add: eval_process eval_examples eval_parse)
  with running_total_per_submission [of service_ok "''req''" abc123_zip example_world]
  show ?thesis by blast
qed

section \<open>Archive failures\<close>

lemma process_archives_append:
  "process_archives generate requirements (pre @ rest) w =
     (case process_archives generate requirements pre w of
        (Returned u, w') \<Rightarrow> process_archives generate requirements rest w'
      | (Raised e, w') \<Rightarrow> (Raised e, w')
      | (Exited n, w') \<Rightarrow> (Exited n, w'))"
  by (induction pre arbitrary: w) (auto split: prod.splits result.splits)

lemma process_file_read_failure:
  "eligible f \<Longrightarrow> read_text f = Inl e \<Longrightarrow>
     process_file generate requirements sid f (t, w) =
       (t, say [ErrorProcessing (entry_path f) (exn_msg e)] w)"
  by (simp add: process_file_def)

text \<open>
  C2, as amended: when opening or extracting an archive raises, the exception is not
  caught: it leaves \<open>process_submissions\<close> after the line announcing the submission,
  the function prints nothing about it, and the archives after it are not processed. Only an
  error while processing one extracted file is printed with the path of the file, and
  the loop goes on with the next file.
\<close>

theorem extraction_failure_propagates:
  "(fst (process_archives generate requirements pre w) = Returned () \<and>
    (open_zip a = Some e \<or> (open_zip a = None \<and> extractall a = Inl e)) \<longrightarrow>
      process_archives generate requirements (pre @ a # rest) w =
        (Raised e,
         say [ProcessingSubmission (asurite_id (stem a))]
           (snd (process_archives generate requirements pre w)))) \<and>
   (eligible f \<and> read_text f = Inl e' \<longrightarrow>
      process_files generate requirements sid (f # files) (t, w) =
        process_files generate requirements sid files
          (t, say [ErrorProcessing (entry_path f) (exn_msg e')] w))"
proof -
  have "process_archives generate requirements (pre @ a # rest) w =
        (Raised e,
         say [ProcessingSubmission (asurite_id (stem a))]
           (snd (process_archives generate requirements pre w)))"
    if r: "fst (process_archives generate requirements pre w) = Returned ()"
      and x: "open_zip a = Some e \<or> (open_zip a = None \<and> extractall a = Inl e)"
  proof -
    obtain w' where p: "process_archives generate requirements pre w = (Returned (), w')"
      using r by (cases "process_archives generate requirements pre w") auto
    from process_archive_failure [OF x, of generate requirements w'] p show ?thesis
      by (simp add: process_archives_append)
  qed
  then show ?thesis
    using process_file_read_failure [of f e' generate requirements sid t w] by simp
qed

theorem extraction_failure_propagates_witness:
  "fst (process_archives service_ok ''req'' [abc123_zip] example_world) = Returned () \<and>
   open_zip broken_zip = None \<and>
   extractall broken_zip = Inl (Exn ''OSError'' ''No space left on device'') \<and>
   process_archives service_ok ''req'' ([abc123_zip] @ broken_zip # [abc123_zip]) example_world =
     (Raised (Exn ''OSError'' ''No space left on device''),
      say [ProcessingSubmission ''broken'']
        (snd (process_archives service_ok ''req'' [abc123_zip] example_world))) \<and>
   eligible unreadable_py \<and>
   read_text unreadable_py = Inl (Exn ''PermissionError'' ''Permission denied'') \<and>
   process_files service_ok ''req'' ''mixed'' (unreadable_py # [main_py]) (0, example_world) =
     process_files service_ok ''req'' ''mixed'' [main_py]
       (0, say [ErrorProcessing ''temp/mixed/secret.py'' ''Permission denied''] example_world)"
proof -
  have a: "fst (process_archives service_ok ''req'' [abc123_zip] example_world) = Returned ()"
    by (simp add: eval_process eval_examples eval_parse)
  have b: "open_zip broken_zip = None"
    "extractall broken_zip = Inl (Exn ''OSError'' ''No space left on device'')"
    "asurite_id (stem broken_zip) = ''broken''"
    by (simp_all add: broken_zip_def asurite_id_def)
  have c: "eligible unreadable_py"
    "read_text unreadable_py = Inl (Exn ''PermissionError'' ''Permission denied'')"
    "entry_path unreadable_py = ''temp/mixed/secret.py''"
    by (simp_all add: unreadable_py_def eligible_def)
  note t = extraction_failure_propagates
    [of service_ok "''req''" "[abc123_zip]" example_world broken_zip
        "Exn ''OSError'' ''No space left on device''" "[abc123_zip]" unreadable_py
        "Exn ''PermissionError'' ''Permission denied''" "''mixed''" "[main_py]" 0]
  from t a b have 1: "process_archives service_ok ''req'' ([abc123_zip] @ broken_zip # [abc123_zip])
      example_world =
     (Raised (Exn ''OSError'' ''No space left on device''),
      say [ProcessingSubmission ''broken'']
        (snd (process_archives service_ok ''req'' [abc123_zip] example_world)))"
    by simp
  from t c have 2: "process_files service_ok ''req'' ''mixed'' (unreadable_py # [main_py])
      (0, example_world) =
     process_files service_ok ''req'' ''mixed'' [main_py]
       (0, say [ErrorProcessing ''temp/mixed/secret.py'' ''Permission denied''] example_world)"
    by simp
  from a b(1,2) c(1,2) 1 2 show ?thesis by blast
qed

text \<open>
  A batch of two archives of which the first fails to extract: the exception is the
  outcome of the run, the console holds no error line, and no row of the second archive
  is written, although that archive alone yields two rows.
\<close>

theorem extraction_failure_counterexample:
  "process_submissions (\<lambda>p. Inr [''rubric'']) service_ok ''rubric.pdf''
       [broken_zip, abc123_zip] example_world =
     (Raised (Exn ''OSError'' ''No space left on device''),
      \<lparr>console = [ProcessingSubmission ''broken''],
        csv_header = [''ASURITE'', ''File'', ''Score'', ''Feedback'', ''Total''],
        csv_rows = [], dirs = {}\<rparr>) \<and>
   length (csv_rows (snd (process_submissions (\<lambda>p. Inr [''rubric'']) service_ok ''rubric.pdf''
       [abc123_zip] example_world))) = 2"
  by (simp add: process_submissions_def extract_requirements_def eval_process eval_examples
      broken_zip_def eval_parse)

section \<open>Cleanup of the working directory\<close>

text \<open>
  C6, as amended: for a submission whose archive opens and extracts, whatever happens to
  its files, processing returns after the call that deletes the working directory, which
  raises nothing; the directory is gone whenever that deletion succeeds.
\<close>

theorem working_directory_removed:
  "open_zip a = None \<and> extractall a = Inr files \<longrightarrow>
     fst (process_archive generate requirements a w) = Returned () \<and>
     (rmtree_removes a \<longrightarrow>
        ''temp/'' @ asurite_id (stem a) \<notin>
          dirs (snd (process_archive generate requirements a w)))"
  using process_archive_success [of a files generate requirements w]
  by (auto simp: rmtree_def simp del: append.simps)

theorem working_directory_removed_witness:
  "open_zip mixed_zip = None \<and> extractall mixed_zip = Inr [unreadable_py, main_py] \<and>
   rmtree_removes mixed_zip \<and>
   fst (process_archive service_down ''req'' mixed_zip example_world) = Returned () \<and>
   ''temp/'' @ asurite_id (stem mixed_zip) \<notin>
     dirs (snd (process_archive service_down ''req'' mixed_zip example_world)) \<and>
   console (snd (process_archive service_down ''req'' mixed_zip example_world)) =
     [ProcessingSubmission ''mixed'',
      ErrorProcessing ''temp/mixed/secret.py'' ''Permission denied'',
      Analyzing ''main.py'', ErrorAnalyzing ''main.py'' ''connection refused'',
      ScoreLine 0, FeedbackLine ''Analysis failed'']"
proof -
  have a: "open_zip mixed_zip = None" "extractall mixed_zip = Inr [unreadable_py, main_py]"
    "rmtree_removes mixed_zip"
    by (simp_all add: mixed_zip_def)
  have c: "console (snd (process_archive service_down ''req'' mixed_zip example_world)) =
     [ProcessingSubmission ''mixed'',
      ErrorProcessing ''temp/mixed/secret.py'' ''Permission denied'',
      Analyzing ''main.py'', ErrorAnalyzing ''main.py'' ''connection refused'',
      ScoreLine 0, FeedbackLine ''Analysis failed'']"
    by (simp add: eval_process eval_examples mixed_zip_def unreadable_py_def)
  from working_directory_removed
    [of mixed_zip "[unreadable_py, main_py]" service_down "''req''" example_world] a c
  show ?thesis by blast
qed

text \<open>
  An archive whose extracted tree cannot be deleted: the error is suppressed and the
  working directory is still on disk after the submission has been processed.
\<close>

theorem working_directory_left_counterexample:
  "open_zip locked_zip = None \<and> extractall locked_zip = Inr [main_py, config_yaml] \<and>
   fst (process_archive service_ok ''req'' locked_zip example_world) = Returned () \<and>
   ''temp/abc123'' \<in> dirs (snd (process_archive service_ok ''req'' locked_zip example_world))"
  by (simp add: eval_process eval_examples locked_zip_def eval_parse)

end
